theory Spec2Isabelle
  imports Complex_Main
begin

section \<open>Python values and strings\<close>

text \<open>
  The plugin (\<^verbatim>\<open>plugin.py\<close>) reads a loosely typed message object. A Python value is
  modelled by the constructors below. A string is a list of characters; a character is a
  code point below 256, which is the part of Python's \<^verbatim>\<open>str\<close> the model covers. A
  \<^verbatim>\<open>dict\<close> and an instance carry, next to their entries or attributes, the text that
  \<^verbatim>\<open>str()\<close> returns for them. A \<^verbatim>\<open>float\<close> is the real number it denotes.
\<close>

datatype pyval =
    PNone
  | PBool bool
  | PInt int
  | PStr string
  | PDict string "(string \<times> pyval) list"
  | PObj string "(string \<times> pyval) list"

datatype py_error = ValueError

definition py_isspace :: "char \<Rightarrow> bool" where
  "py_isspace c =
     (let n = (of_char c :: nat)
      in (9 \<le> n \<and> n \<le> 13) \<or> (28 \<le> n \<and> n \<le> 31) \<or> n = 32 \<or> n = 133 \<or> n = 160)"

definition py_isdigit :: "char \<Rightarrow> bool" where
  "py_isdigit c = (let n = (of_char c :: nat) in 48 \<le> n \<and> n \<le> 57)"

definition digit_val :: "char \<Rightarrow> nat" where
  "digit_val c = (of_char c :: nat) - 48"

definition digit_char :: "nat \<Rightarrow> char" where
  "digit_char d = char_of (48 + d)"

text \<open>\<^verbatim>\<open>s.strip()\<close>: leading and trailing whitespace removed.\<close>

definition strip :: "string \<Rightarrow> string" where
  "strip s = rev (dropWhile py_isspace (rev (dropWhile py_isspace s)))"

text \<open>\<^verbatim>\<open>s.startswith(p)\<close>.\<close>

definition startswith :: "string \<Rightarrow> string \<Rightarrow> bool" where
  "startswith s p = (take (length p) s = p)"

text \<open>\<^verbatim>\<open>path.split(".")\<close>.\<close>

fun split_on :: "char \<Rightarrow> string \<Rightarrow> string list" where
  "split_on c [] = [[]]"
| "split_on c (x # xs) =
     (if x = c then [] # split_on c xs
      else (case split_on c xs of [] \<Rightarrow> [[x]] | y # ys \<Rightarrow> (x # y) # ys))"

text \<open>\<^verbatim>\<open>str(n)\<close> for an integer: its decimal digits, with a sign when negative.\<close>

function str_nat :: "nat \<Rightarrow> string" where
  "str_nat n = (if n < 10 then [digit_char n] else str_nat (n div 10) @ [digit_char (n mod 10)])"
  by pat_completeness auto
termination
  by (relation "measure id") auto

declare str_nat.simps [simp del]

definition str_int :: "int \<Rightarrow> string" where
  "str_int i = (if i < 0 then CHR ''-'' # str_nat (nat (- i)) else str_nat (nat i))"

text \<open>\<^verbatim>\<open>str(v)\<close>.\<close>

fun py_str :: "pyval \<Rightarrow> string" where
  "py_str PNone = ''None''"
| "py_str (PBool b) = (if b then ''True'' else ''False'')"
| "py_str (PInt i) = str_int i"
| "py_str (PStr s) = s"
| "py_str (PDict shown kvs) = shown"
| "py_str (PObj shown attrs) = shown"

text \<open>The truth value of \<^verbatim>\<open>v\<close> in a condition (an instance is true).\<close>

fun truthy :: "pyval \<Rightarrow> bool" where
  "truthy PNone = False"
| "truthy (PBool b) = b"
| "truthy (PInt i) = (i \<noteq> 0)"
| "truthy (PStr s) = (s \<noteq> [])"
| "truthy (PDict shown kvs) = (kvs \<noteq> [])"
| "truthy (PObj shown attrs) = True"

text \<open>
  \<^verbatim>\<open>hasattr\<close> and \<^verbatim>\<open>getattr\<close>, for the attribute names the plugin asks for
  (\<^verbatim>\<open>group_id\<close>, \<^verbatim>\<open>text\<close>, \<^verbatim>\<open>is_self\<close>, ...): none of them is an attribute of
  \<^verbatim>\<open>None\<close>, \<^verbatim>\<open>bool\<close>, \<^verbatim>\<open>int\<close>, \<^verbatim>\<open>str\<close> or \<^verbatim>\<open>dict\<close>, so only an instance
  has them.
\<close>

fun hasattr :: "pyval \<Rightarrow> string \<Rightarrow> bool" where
  "hasattr (PObj shown attrs) name = (map_of attrs name \<noteq> None)"
| "hasattr v name = False"

fun getattr :: "pyval \<Rightarrow> string \<Rightarrow> pyval \<Rightarrow> pyval" where
  "getattr (PObj shown attrs) name dflt = (case map_of attrs name of Some v \<Rightarrow> v | None \<Rightarrow> dflt)"
| "getattr v name dflt = dflt"

text \<open>\<^verbatim>\<open>isinstance(cur, dict) and seg in cur\<close>, and \<^verbatim>\<open>cur[seg]\<close>.\<close>

fun dict_has :: "pyval \<Rightarrow> string \<Rightarrow> bool" where
  "dict_has (PDict shown kvs) key = (map_of kvs key \<noteq> None)"
| "dict_has v key = False"

fun dict_get :: "pyval \<Rightarrow> string \<Rightarrow> pyval" where
  "dict_get (PDict shown kvs) key = (case map_of kvs key of Some v \<Rightarrow> v | None \<Rightarrow> PNone)"
| "dict_get v key = PNone"

text \<open>
  \<^verbatim>\<open>int(s)\<close> for a string: surrounding whitespace is dropped, then an optional sign and
  decimal digits, with single underscores allowed between digits. Anything else raises
  \<^verbatim>\<open>ValueError\<close> (\<open>None\<close> here), and so does a literal of more than 4300 digits.
\<close>

fun parse_digits :: "string \<Rightarrow> nat list option" where
  "parse_digits [] = None"
| "parse_digits [c] = (if py_isdigit c then Some [digit_val c] else None)"
| "parse_digits (c # u # cs) =
     (if \<not> py_isdigit c then None
      else if u = CHR ''_'' then map_option (Cons (digit_val c)) (parse_digits cs)
      else map_option (Cons (digit_val c)) (parse_digits (u # cs)))"

definition decimal_value :: "nat list \<Rightarrow> nat" where
  "decimal_value ds = foldl (\<lambda>a d. 10 * a + d) 0 ds"

definition py_int :: "string \<Rightarrow> int option" where
  "py_int s =
     (case strip s of
        [] \<Rightarrow> None
      | c # cs \<Rightarrow>
          (let negative = (c = CHR ''-'');
               body = (if c = CHR ''-'' \<or> c = CHR ''+'' then cs else c # cs)
           in case parse_digits body of
                None \<Rightarrow> None
              | Some ds \<Rightarrow>
                  if 4300 < length ds then None
                  else Some (if negative then - int (decimal_value ds) else int (decimal_value ds))))"

section \<open>The two regular expressions\<close>

text \<open>
  \<^verbatim>\<open>re.search(r'"post_type"\s*:\s*"notice"', text)\<close>. A whitespace character is neither
  a colon nor a quote, so each \<^verbatim>\<open>\s*\<close> takes the whole run of whitespace.
\<close>

definition strip_prefix :: "string \<Rightarrow> string \<Rightarrow> string option" where
  "strip_prefix p s = (if take (length p) s = p then Some (drop (length p) s) else None)"

definition match_notice :: "string \<Rightarrow> bool" where
  \<open>match_notice s =
     (case strip_prefix ''"post_type"'' s of
        None \<Rightarrow> False
      | Some r \<Rightarrow>
          (case dropWhile py_isspace r of
             [] \<Rightarrow> False
           | c # r2 \<Rightarrow> c = CHR '':'' \<and> startswith (dropWhile py_isspace r2) ''"notice"''))\<close>

fun re_search_notice :: "string \<Rightarrow> bool" where
  "re_search_notice [] = False"
| "re_search_notice (c # cs) = (match_notice (c # cs) \<or> re_search_notice cs)"

text \<open>
  \<^verbatim>\<open>re.sub(r'@<([^:]+?):\d+>', r'@\1', reply_text)\<close>. At a position the pattern can match
  in one way only: the name is what stands between the opening marker and the first colon
  (not empty), the digits are the whole run of digits after the colon (not empty), and a
  closing angle bracket follows. \<open>match_mention\<close> returns the name and the text after the
  match. \<^verbatim>\<open>re.sub\<close> replaces the leftmost match, then goes on after it.
\<close>

definition match_mention :: "string \<Rightarrow> (string \<times> string) option" where
  "match_mention s =
     (case strip_prefix ''@<'' s of
        None \<Rightarrow> None
      | Some r \<Rightarrow>
          (let name = takeWhile (\<lambda>c. c \<noteq> CHR '':'') r
           in if name = [] then None
              else (case dropWhile (\<lambda>c. c \<noteq> CHR '':'') r of
                      [] \<Rightarrow> None
                    | colon # r2 \<Rightarrow>
                        if takeWhile py_isdigit r2 = [] then None
                        else (case dropWhile py_isdigit r2 of
                                [] \<Rightarrow> None
                              | c # rest \<Rightarrow> if c = CHR ''>'' then Some (name, rest) else None))))"

function re_sub_mention :: "string \<Rightarrow> string" where
  "re_sub_mention [] = []"
| "re_sub_mention (c # cs) =
     (case match_mention (c # cs) of
        Some (name, rest) \<Rightarrow> CHR ''@'' # name @ re_sub_mention rest
      | None \<Rightarrow> c # re_sub_mention cs)"
  by pat_completeness auto
termination
proof (relation "measure length")
  fix c :: char and cs :: string and x2 :: "string \<times> string" and name rest :: string
  assume m: "match_mention (c # cs) = Some x2" and x: "(name, rest) = x2"
  from m x obtain r where r: "strip_prefix ''@<'' (c # cs) = Some r"
    by (auto simp: match_mention_def split: option.splits)
  then have lr: "length r \<le> length (c # cs)"
    by (auto simp: strip_prefix_def split: if_splits)
  from m x r obtain colon r2 where r2: "dropWhile (\<lambda>c. c \<noteq> CHR '':'') r = colon # r2"
    by (auto simp: match_mention_def Let_def split: if_splits list.splits)
  from m x r r2 obtain d where d: "dropWhile py_isdigit r2 = d # rest"
    by (auto simp: match_mention_def Let_def split: if_splits list.splits)
  have "length (dropWhile (\<lambda>c. c \<noteq> CHR '':'') r) \<le> length r"
    by (rule length_dropWhile_le)
  with r2 have a: "length r2 < length r" by simp
  have "length (dropWhile py_isdigit r2) \<le> length r2"
    by (rule length_dropWhile_le)
  with d have "length rest < length r2" by simp
  with a lr show "(rest, c # cs) \<in> measure length" by simp
qed simp_all

section \<open>The helpers of the plugin\<close>

text \<open>\<^verbatim>\<open>_safe_str\<close>, \<^verbatim>\<open>_dig\<close> (the loop over the path's segments is \<open>dig_segs\<close>) and
  \<^verbatim>\<open>_first_text\<close>.\<close>

definition safe_str :: "pyval \<Rightarrow> string" where
  "safe_str x = (if x \<noteq> PNone then py_str x else [])"

fun dig_segs :: "pyval \<Rightarrow> string list \<Rightarrow> pyval \<Rightarrow> pyval" where
  "dig_segs cur [] dflt = cur"
| "dig_segs cur (seg # segs) dflt =
     (if cur = PNone then dflt
      else if hasattr cur seg then dig_segs (getattr cur seg PNone) segs dflt
      else if dict_has cur seg then dig_segs (dict_get cur seg) segs dflt
      else dflt)"

definition dig :: "pyval \<Rightarrow> string \<Rightarrow> pyval" where
  "dig obj path = dig_segs obj (split_on (CHR ''.'') path) PNone"

fun first_text :: "pyval list \<Rightarrow> string" where
  "first_text [] = []"
| "first_text (v # vals) =
     (if v = PNone then first_text vals
      else if strip (py_str v) \<noteq> [] then strip (py_str v)
      else first_text vals)"

section \<open>Configuration, state and the gateway\<close>

text \<open>
  \<^verbatim>\<open>get_config(key, default)\<close> belongs to the host framework, which is not part of the
  repository. The loaded configuration is a parameter: each of the three keys of the
  \<^verbatim>\<open>repeat\<close> section either holds a value or is absent, and an absent key gives the
  default passed by the caller. \<open>config_schema\<close> holds the defaults that
  \<^verbatim>\<open>RepeatPlugin.config_schema\<close> declares.
\<close>

record config =
  debug_mode :: "bool option"
  repeat_probability :: "real option"
  skip_probability :: "real option"

definition get_config :: "'a option \<Rightarrow> 'a \<Rightarrow> 'a" where
  "get_config stored dflt = (case stored of Some v \<Rightarrow> v | None \<Rightarrow> dflt)"

definition config_schema :: config where
  "config_schema =
     \<lparr>debug_mode = Some False, repeat_probability = Some 0.7, skip_probability = Some 0.1\<rparr>"

text \<open>
  The state: the two class attributes of \<^verbatim>\<open>RepeatHandler\<close>, the requests handed to the
  gateway so far (group id and text), and how many values \<^verbatim>\<open>random.random()\<close> has
  given. The values themselves are a parameter \<open>rnd\<close> of the handler: the \<open>i\<close>-th
  call returns \<open>rnd i\<close>. A window is a \<^verbatim>\<open>deque(maxlen=3)\<close>.
\<close>

record handler_state =
  chat_history :: "string \<rightharpoonup> string list"
  last_repeated_message :: "string option"
  outbox :: "(int \<times> string) list"
  draws_used :: nat

definition init_state :: handler_state where
  "init_state =
     \<lparr>chat_history = Map.empty, last_repeated_message = None, outbox = [], draws_used = 0\<rparr>"

definition random_random :: "(nat \<Rightarrow> real) \<Rightarrow> handler_state \<Rightarrow> real \<times> handler_state" where
  "random_random rnd s = (rnd (draws_used s), s\<lparr>draws_used := Suc (draws_used s)\<rparr>)"

definition deque_append :: "string list \<Rightarrow> string \<Rightarrow> string list" where
  "deque_append history text = (if length history = 3 then tl history @ [text] else history @ [text])"

definition history_append :: "string \<Rightarrow> string \<Rightarrow> handler_state \<Rightarrow> handler_state" where
  "history_append group_id text s =
     s\<lparr>chat_history := (chat_history s)
          (group_id \<mapsto> deque_append (case chat_history s group_id of Some h \<Rightarrow> h | None \<Rightarrow> []) text)\<rparr>"

text \<open>
  \<^verbatim>\<open>send_group_msg\<close>: its whole body stands in \<^verbatim>\<open>try ... except Exception\<close>, so it
  returns whether or not the request reaches the gateway. The model records the request.
\<close>

definition send_group_msg :: "int \<Rightarrow> string \<Rightarrow> handler_state \<Rightarrow> handler_state" where
  "send_group_msg group_id text s = s\<lparr>outbox := outbox s @ [(group_id, text)]\<rparr>"

section \<open>The handler\<close>

text \<open>
  \<^verbatim>\<open>RepeatHandler.execute\<close> returns the same tuple on every path; an exception that
  leaves it is \<open>Inl\<close>. Log lines are not modelled. \<open>extract_group_id\<close> and
  \<open>extract_text\<close> are the two calls of \<^verbatim>\<open>_first_text\<close>.
\<close>

type_synonym handler_return = "bool \<times> bool \<times> string option \<times> pyval option \<times> pyval option"

definition handled :: handler_return where
  "handled = (True, True, None, None, None)"

definition extract_group_id :: "pyval \<Rightarrow> string" where
  "extract_group_id message =
     first_text
       [dig message ''message_base_info.group_id'',
        dig message ''group_id'',
        dig message ''ctx.group_id'',
        dig message ''context.group_id'']"

definition extract_text :: "pyval \<Rightarrow> string" where
  "extract_text message =
     first_text
       [dig message ''processed_plain_text'',
        dig message ''message_content'',
        dig message ''content'',
        dig message ''message_base_info.content'',
        dig message ''raw_message'',
        dig message ''text'']"

text \<open>\<^verbatim>\<open>len(history) >= 2\<close> and \<^verbatim>\<open>history[-1] == history[-2] == text\<close>.\<close>

definition repeat_trigger :: "string list \<Rightarrow> string \<Rightarrow> bool" where
  "repeat_trigger history text =
     (2 \<le> length history \<and>
      history ! (length history - 1) = history ! (length history - 2) \<and>
      history ! (length history - 2) = text)"

text \<open>
  The end of \<^verbatim>\<open>execute\<close>, from \<^verbatim>\<open>if reply_text and reply_text != ...\<close> on.
  \<^verbatim>\<open>int(group_id)\<close> is evaluated in the handler, before \<^verbatim>\<open>send_group_msg\<close> is entered.
\<close>

definition echo_and_append ::
  "string option \<Rightarrow> string \<Rightarrow> string \<Rightarrow> handler_state \<Rightarrow> (py_error + handler_return) \<times> handler_state" where
  "echo_and_append reply_text group_id text s =
     (case reply_text of
        None \<Rightarrow> (Inr handled, history_append group_id text s)
      | Some reply \<Rightarrow>
          if reply \<noteq> [] \<and> Some reply \<noteq> last_repeated_message s then
            (let reply_text_cleaned = re_sub_mention reply
             in case py_int group_id of
                  None \<Rightarrow> (Inl ValueError, s)
                | Some gid \<Rightarrow>
                    (Inr handled,
                     history_append group_id text
                       ((send_group_msg gid reply_text_cleaned s)\<lparr>last_repeated_message := Some reply\<rparr>)))
          else (Inr handled, history_append group_id text s))"

text \<open>The part of \<^verbatim>\<open>execute\<close> after the filters, from the lazy creation of the window on.\<close>

definition detect_and_decide ::
  "config \<Rightarrow> (nat \<Rightarrow> real) \<Rightarrow> string \<Rightarrow> string \<Rightarrow> handler_state \<Rightarrow> (py_error + handler_return) \<times> handler_state" where
  "detect_and_decide cfg rnd group_id text s =
     (let s1 = (if chat_history s group_id = None
                then s\<lparr>chat_history := (chat_history s)(group_id \<mapsto> [])\<rparr> else s);
          history = (case chat_history s1 group_id of Some h \<Rightarrow> h | None \<Rightarrow> [])
      in if repeat_trigger history text then
           (case random_random rnd s1 of
              (r1, s2) \<Rightarrow>
                if r1 \<le> get_config (skip_probability cfg) 0 then
                  (Inr handled, history_append group_id text s2)
                else
                  (case random_random rnd s2 of
                     (r2, s3) \<Rightarrow>
                       echo_and_append
                         (if r2 \<le> get_config (repeat_probability cfg) 1 then Some text else None)
                         group_id text s3))
         else echo_and_append None group_id text s1)"

definition execute ::
  "config \<Rightarrow> (nat \<Rightarrow> real) \<Rightarrow> pyval \<Rightarrow> handler_state \<Rightarrow> (py_error + handler_return) \<times> handler_state" where
  "execute cfg rnd message s =
     (if message = PNone then (Inr handled, s)
      else if extract_group_id message = [] then (Inr handled, s)
      else
        (let group_id = safe_str (PStr (extract_group_id message));
             text = extract_text message
         in if text = [] then (Inr handled, s)
            else if re_search_notice text then (Inr handled, s)
            else if startswith text ''[CQ:'' then (Inr handled, s)
            else if truthy (getattr message ''is_self'' (PBool False)) then
              (Inr handled,
               if Some text = last_repeated_message s then s\<lparr>last_repeated_message := None\<rparr> else s)
            else detect_and_decide cfg rnd group_id text s))"

text \<open>
  The host calls the handler once for each event, one after the other. The class
  attributes keep what a call did to them, also when the call raised.
\<close>

fun run :: "config \<Rightarrow> (nat \<Rightarrow> real) \<Rightarrow> pyval list \<Rightarrow> handler_state \<Rightarrow> handler_state" where
  "run cfg rnd [] s = s"
| "run cfg rnd (m # ms) s = run cfg rnd ms (snd (execute cfg rnd m s))"

text \<open>A group message as the host delivers it, with the three fields the handler reads.\<close>

definition group_message :: "string \<Rightarrow> string \<Rightarrow> bool \<Rightarrow> pyval" where
  "group_message group_id text self =
     PObj ''MaiMessages''
       [(''message_base_info'', PDict ''{}'' [(''group_id'', PStr group_id)]),
        (''processed_plain_text'', PStr text),
        (''is_self'', PBool self)]"

section \<open>Vocabulary for the properties\<close>

text \<open>
  \<open>filtered\<close>: one of the early exits before the self-message check is taken.
  \<open>is_self\<close>: the message is flagged as written by the bot. \<open>observed\<close>: the message
  reaches the detector. \<open>window\<close>: the history of a group, empty when the group has
  none yet. \<open>clears_guard\<close>: a self-message that reaches the guard with this text.
\<close>

definition filtered :: "pyval \<Rightarrow> bool" where
  "filtered m =
     (m = PNone \<or> extract_group_id m = [] \<or> extract_text m = [] \<or>
      re_search_notice (extract_text m) \<or> startswith (extract_text m) ''[CQ:'')"

definition is_self :: "pyval \<Rightarrow> bool" where
  "is_self m = truthy (getattr m ''is_self'' (PBool False))"

definition observed :: "pyval \<Rightarrow> bool" where
  "observed m = (\<not> filtered m \<and> \<not> is_self m)"

definition clears_guard :: "string \<Rightarrow> pyval \<Rightarrow> bool" where
  "clears_guard text m = (\<not> filtered m \<and> is_self m \<and> extract_text m = text)"

definition window :: "handler_state \<Rightarrow> string \<Rightarrow> string list" where
  "window s group_id = (case chat_history s group_id of Some h \<Rightarrow> h | None \<Rightarrow> [])"

definition observed_texts :: "pyval list \<Rightarrow> string list" where
  "observed_texts ms = map extract_text (filter observed ms)"

text \<open>
  \<open>echo_attempt\<close>: the detector fires, neither gate stops the echo and the guard lets
  it through, so that the handler goes on to \<^verbatim>\<open>send_group_msg(int(group_id), ...)\<close>.
\<close>

definition echo_attempt :: "config \<Rightarrow> (nat \<Rightarrow> real) \<Rightarrow> string \<Rightarrow> string \<Rightarrow> handler_state \<Rightarrow> bool" where
  "echo_attempt cfg rnd group_id text s =
     (repeat_trigger (window s group_id) text \<and>
      \<not> rnd (draws_used s) \<le> get_config (skip_probability cfg) 0 \<and>
      rnd (Suc (draws_used s)) \<le> get_config (repeat_probability cfg) 1 \<and>
      Some text \<noteq> last_repeated_message s)"

text \<open>\<open>no_mention_start s\<close>: the two characters that open a mention do not occur in \<open>s\<close>.\<close>

fun no_mention_start :: "string \<Rightarrow> bool" where
  "no_mention_start (a # b # cs) = ((a \<noteq> CHR ''@'' \<or> b \<noteq> CHR ''<'') \<and> no_mention_start (b # cs))"
| "no_mention_start cs = True"

section \<open>One call of the handler\<close>

lemma execute_filtered: "filtered m \<Longrightarrow> execute cfg rnd m s = (Inr handled, s)"
  by (auto simp: filtered_def execute_def Let_def)

lemma execute_self:
  "\<not> filtered m \<Longrightarrow> is_self m \<Longrightarrow>
   execute cfg rnd m s =
     (Inr handled,
      if Some (extract_text m) = last_repeated_message s then s\<lparr>last_repeated_message := None\<rparr> else s)"
  by (simp add: filtered_def is_self_def execute_def Let_def)

lemma execute_observed:
  "observed m \<Longrightarrow>
   execute cfg rnd m s = detect_and_decide cfg rnd (extract_group_id m) (extract_text m) s"
  by (simp add: observed_def filtered_def is_self_def execute_def Let_def safe_str_def)

lemma history_append_fresh:
  "chat_history s g = None \<Longrightarrow>
   history_append g t (s\<lparr>chat_history := (chat_history s)(g \<mapsto> [])\<rparr>) = history_append g t s"
  by (simp add: history_append_def)

lemma trigger_nonempty: "repeat_trigger h t \<Longrightarrow> h \<noteq> []"
  by (auto simp: repeat_trigger_def)

lemma detect_and_decide_eq:
  "detect_and_decide cfg rnd g t s =
     (if repeat_trigger (window s g) t then
        (if rnd (draws_used s) \<le> get_config (skip_probability cfg) 0 then
           (Inr handled, history_append g t (s\<lparr>draws_used := Suc (draws_used s)\<rparr>))
         else
           echo_and_append
             (if rnd (Suc (draws_used s)) \<le> get_config (repeat_probability cfg) 1 then Some t else None)
             g t (s\<lparr>draws_used := Suc (Suc (draws_used s))\<rparr>))
      else (Inr handled, history_append g t s))"
proof (cases "chat_history s g")
  case None
  then have "\<not> repeat_trigger (window s g) t" "\<not> repeat_trigger [] t"
    by (auto simp: window_def repeat_trigger_def)
  with None show ?thesis
    by (simp add: detect_and_decide_def Let_def echo_and_append_def history_append_fresh)
next
  case (Some h)
  then show ?thesis
    by (simp add: detect_and_decide_def Let_def echo_and_append_def window_def random_random_def)
qed

lemma observed_text_nonempty: "observed m \<Longrightarrow> extract_text m \<noteq> []"
  by (auto simp: observed_def filtered_def)

lemma detect_outbox:
  "t \<noteq> [] \<Longrightarrow> outbox (snd (detect_and_decide cfg rnd g t s)) =
     (if echo_attempt cfg rnd g t s \<and> py_int g \<noteq> None
      then outbox s @ [(the (py_int g), re_sub_mention t)] else outbox s)"
  by (auto simp: detect_and_decide_eq echo_attempt_def echo_and_append_def history_append_def
        send_group_msg_def Let_def split: option.splits)

lemma detect_guard:
  "t \<noteq> [] \<Longrightarrow> last_repeated_message (snd (detect_and_decide cfg rnd g t s)) =
     (if echo_attempt cfg rnd g t s \<and> py_int g \<noteq> None
      then Some t else last_repeated_message s)"
  by (auto simp: detect_and_decide_eq echo_attempt_def echo_and_append_def history_append_def
        send_group_msg_def Let_def split: option.splits)

lemma detect_history:
  "t \<noteq> [] \<Longrightarrow> chat_history (snd (detect_and_decide cfg rnd g t s)) =
     (if echo_attempt cfg rnd g t s \<and> py_int g = None
      then chat_history s else (chat_history s)(g \<mapsto> deque_append (window s g) t))"
  by (auto simp: detect_and_decide_eq echo_attempt_def echo_and_append_def history_append_def
        send_group_msg_def window_def Let_def split: option.splits)

lemma detect_result:
  "t \<noteq> [] \<Longrightarrow> fst (detect_and_decide cfg rnd g t s) =
     (if echo_attempt cfg rnd g t s \<and> py_int g = None then Inl ValueError else Inr handled)"
  by (auto simp: detect_and_decide_eq echo_attempt_def echo_and_append_def
        Let_def split: option.splits)

lemma detect_draws:
  "t \<noteq> [] \<Longrightarrow> draws_used (snd (detect_and_decide cfg rnd g t s)) =
     (if repeat_trigger (window s g) t
      then (if rnd (draws_used s) \<le> get_config (skip_probability cfg) 0
            then Suc (draws_used s) else Suc (Suc (draws_used s)))
      else draws_used s)"
  by (auto simp: detect_and_decide_eq echo_and_append_def history_append_def
        send_group_msg_def Let_def split: option.splits)

lemma message_cases:
  obtains (dropped) "filtered m" | (self) "\<not> filtered m" "is_self m" | (seen) "observed m"
  by (auto simp: observed_def)

lemma execute_outbox:
  "outbox (snd (execute cfg rnd m s)) =
     (if observed m \<and> echo_attempt cfg rnd (extract_group_id m) (extract_text m) s \<and>
         py_int (extract_group_id m) \<noteq> None
      then outbox s @ [(the (py_int (extract_group_id m)), re_sub_mention (extract_text m))]
      else outbox s)"
proof (cases m rule: message_cases)
  case dropped
  then show ?thesis by (simp add: execute_filtered observed_def)
next
  case self
  then show ?thesis by (simp add: execute_self observed_def)
next
  case seen
  then show ?thesis
    by (simp add: execute_observed detect_outbox observed_text_nonempty)
qed

lemma execute_guard:
  "last_repeated_message (snd (execute cfg rnd m s)) =
     (if observed m \<and> echo_attempt cfg rnd (extract_group_id m) (extract_text m) s \<and>
         py_int (extract_group_id m) \<noteq> None
      then Some (extract_text m)
      else if clears_guard (extract_text m) m \<and> last_repeated_message s = Some (extract_text m)
      then None else last_repeated_message s)"
proof (cases m rule: message_cases)
  case dropped
  then show ?thesis by (simp add: execute_filtered observed_def clears_guard_def)
next
  case self
  then show ?thesis by (auto simp: execute_self observed_def clears_guard_def)
next
  case seen
  then have "\<not> clears_guard (extract_text m) m"
    by (simp add: observed_def clears_guard_def)
  with seen show ?thesis
    by (auto simp: execute_observed detect_guard observed_text_nonempty)
qed

lemma execute_history:
  "chat_history (snd (execute cfg rnd m s)) =
     (if observed m \<and>
         \<not> (echo_attempt cfg rnd (extract_group_id m) (extract_text m) s \<and>
            py_int (extract_group_id m) = None)
      then (chat_history s)
             (extract_group_id m \<mapsto> deque_append (window s (extract_group_id m)) (extract_text m))
      else chat_history s)"
proof (cases m rule: message_cases)
  case dropped
  then show ?thesis by (simp add: execute_filtered observed_def)
next
  case self
  then show ?thesis by (simp add: execute_self observed_def)
next
  case seen
  then show ?thesis
    by (simp add: execute_observed detect_history observed_text_nonempty)
qed

lemma execute_result:
  "fst (execute cfg rnd m s) =
     (if observed m \<and> echo_attempt cfg rnd (extract_group_id m) (extract_text m) s \<and>
         py_int (extract_group_id m) = None
      then Inl ValueError else Inr handled)"
proof (cases m rule: message_cases)
  case dropped
  then show ?thesis by (simp add: execute_filtered observed_def)
next
  case self
  then show ?thesis by (simp add: execute_self observed_def)
next
  case seen
  then show ?thesis
    by (simp add: execute_observed detect_result observed_text_nonempty)
qed

lemma execute_draws:
  "draws_used (snd (execute cfg rnd m s)) =
     (if observed m \<and> repeat_trigger (window s (extract_group_id m)) (extract_text m)
      then (if rnd (draws_used s) \<le> get_config (skip_probability cfg) 0
            then Suc (draws_used s) else Suc (Suc (draws_used s)))
      else draws_used s)"
proof (cases m rule: message_cases)
  case dropped
  then show ?thesis by (simp add: execute_filtered observed_def)
next
  case self
  then show ?thesis by (simp add: execute_self observed_def)
next
  case seen
  then show ?thesis
    by (simp add: execute_observed detect_draws observed_text_nonempty)
qed

lemma skip_one_step:
  assumes "skip_probability cfg = Some 1" "\<forall>i. rnd i < 1"
  shows "outbox (snd (execute cfg rnd m s)) = outbox s"
proof -
  have "rnd (draws_used s) \<le> get_config (skip_probability cfg) 0"
    using assms by (simp add: get_config_def less_imp_le)
  then have "\<not> echo_attempt cfg rnd (extract_group_id m) (extract_text m) s"
    by (simp add: echo_attempt_def)
  then show ?thesis by (simp add: execute_outbox)
qed

section \<open>Skip probability one\<close>

text \<open>
  Claim C4. With \<^verbatim>\<open>skip_probability\<close> set to 1.0, whatever the messages, the state the
  handler starts from, \<^verbatim>\<open>repeat_probability\<close> and the values drawn in \<open>[0, 1)\<close>, no
  request is handed to the gateway: the outbox after the run is the outbox before it.
\<close>

theorem skip_probability_one_never_echoes:
  assumes "skip_probability cfg = Some 1" and "\<forall>i. 0 \<le> rnd i \<and> rnd i < 1"
  shows "outbox (run cfg rnd ms s) = outbox s"
  using assms
proof (induction ms arbitrary: s)
  case Nil
  then show ?case by simp
next
  case (Cons m ms)
  have "outbox (run cfg rnd ms (snd (execute cfg rnd m s))) = outbox (snd (execute cfg rnd m s))"
    using Cons by simp
  also have "\<dots> = outbox s"
    using Cons.prems by (simp add: skip_one_step)
  finally show ?case by simp
qed

text \<open>The theorem at four equal messages in group 1, every draw being one half.\<close>

theorem skip_probability_one_never_echoes_witness:
  "skip_probability \<lparr>debug_mode = None, repeat_probability = Some 1, skip_probability = Some 1\<rparr> = Some 1 \<and>
   (\<forall>i. (0::real) \<le> (\<lambda>_. 1/2) i \<and> (\<lambda>_. 1/2::real) i < 1) \<and>
   outbox (run \<lparr>debug_mode = None, repeat_probability = Some 1, skip_probability = Some 1\<rparr> (\<lambda>_. 1/2)
     [group_message ''1'' ''A'' False, group_message ''1'' ''A'' False,
      group_message ''1'' ''A'' False, group_message ''1'' ''A'' False] init_state) = []"
  using skip_probability_one_never_echoes
    [of "\<lparr>debug_mode = None, repeat_probability = Some 1, skip_probability = Some 1\<rparr>" "\<lambda>_. 1/2"
        "[group_message ''1'' ''A'' False, group_message ''1'' ''A'' False,
      group_message ''1'' ''A'' False, group_message ''1'' ''A'' False]" init_state]
  by (simp add: init_state_def)

section \<open>Windows\<close>

lemma execute_window:
  "window (snd (execute cfg rnd m s)) g =
     (if observed m \<and> g = extract_group_id m \<and>
         \<not> (echo_attempt cfg rnd (extract_group_id m) (extract_text m) s \<and>
            py_int (extract_group_id m) = None)
      then deque_append (window s g) (extract_text m)
      else window s g)"
  by (auto simp: window_def execute_history)

lemma run_append: "run cfg rnd (ms @ ns) s = run cfg rnd ns (run cfg rnd ms s)"
  by (induction ms arbitrary: s) simp_all

lemma run_snoc: "run cfg rnd (ms @ [m]) s = snd (execute cfg rnd m (run cfg rnd ms s))"
  by (simp add: run_append)

lemma deque_append_length: "length h \<le> 3 \<Longrightarrow> length (deque_append h t) \<le> 3"
  by (simp add: deque_append_def)

lemma deque_append_full: "deque_append [a, b, c] t = [b, c, t]"
  by (simp add: deque_append_def)

lemma execute_bounded:
  "\<forall>g. length (window s g) \<le> 3 \<Longrightarrow> length (window (snd (execute cfg rnd m s)) g) \<le> 3"
  by (simp add: execute_window deque_append_length)

lemma run_bounded:
  "\<forall>g. length (window s g) \<le> 3 \<Longrightarrow> length (window (run cfg rnd ms s) g) \<le> 3"
proof (induction ms arbitrary: s g)
  case Nil
  then show ?case by simp
next
  case (Cons m ms)
  have "\<forall>g. length (window (snd (execute cfg rnd m s)) g) \<le> 3"
    using Cons.prems by (simp add: execute_bounded)
  then show ?case using Cons.IH by simp
qed

lemma window_init: "window init_state g = []"
  by (simp add: window_def init_state_def)

text \<open>
  Claim C6. Starting from the empty history, after any sequence of calls no group's window
  holds more than 3 entries; and a call that appends to a full window \<open>[a, b, c]\<close>
  (an observed message, the call returning) leaves \<open>[b, c, text]\<close>: the oldest entry
  is the one dropped.
\<close>

theorem window_at_most_three_fifo:
  "(\<forall>g. length (window (run cfg rnd ms init_state) g) \<le> 3) \<and>
   (observed m \<and> window s (extract_group_id m) = [a, b, c] \<and>
    fst (execute cfg rnd m s) = Inr handled \<longrightarrow>
    window (snd (execute cfg rnd m s)) (extract_group_id m) = [b, c, extract_text m])"
proof
  show "\<forall>g. length (window (run cfg rnd ms init_state) g) \<le> 3"
    by (simp add: run_bounded window_init)
  show "observed m \<and> window s (extract_group_id m) = [a, b, c] \<and>
    fst (execute cfg rnd m s) = Inr handled \<longrightarrow>
    window (snd (execute cfg rnd m s)) (extract_group_id m) = [b, c, extract_text m]"
    by (auto simp: execute_window execute_result deque_append_full split: if_splits)
qed

text \<open>
  The theorem at group 1: after \<open>A, B, C\<close> the window is full, and \<open>D\<close> pushes
  \<open>A\<close> out.
\<close>

theorem window_at_most_three_fifo_witness:
  "observed (group_message ''1'' ''D'' False) \<and>
   window (run config_schema (\<lambda>_. 1 / 2)
      [group_message ''1'' ''A'' False, group_message ''1'' ''B'' False,
       group_message ''1'' ''C'' False] init_state) ''1'' = [''A'', ''B'', ''C''] \<and>
   fst (execute config_schema (\<lambda>_. 1 / 2) (group_message ''1'' ''D'' False)
      (run config_schema (\<lambda>_. 1 / 2)
        [group_message ''1'' ''A'' False, group_message ''1'' ''B'' False,
         group_message ''1'' ''C'' False] init_state)) = Inr handled \<and>
   window (snd (execute config_schema (\<lambda>_. 1 / 2) (group_message ''1'' ''D'' False)
      (run config_schema (\<lambda>_. 1 / 2)
        [group_message ''1'' ''A'' False, group_message ''1'' ''B'' False,
         group_message ''1'' ''C'' False] init_state))) ''1'' = [''B'', ''C'', ''D''] \<and>
   (\<forall>g. length (window (run config_schema (\<lambda>_. 1 / 2)
      [group_message ''1'' ''A'' False, group_message ''1'' ''B'' False,
       group_message ''1'' ''C'' False, group_message ''1'' ''D'' False] init_state) g) \<le> 3)"
proof -
  let ?m = "group_message ''1'' ''D'' False"
  let ?ms = "[group_message ''1'' ''A'' False, group_message ''1'' ''B'' False,
       group_message ''1'' ''C'' False]"
  let ?S = "run config_schema (\<lambda>_. 1 / 2) ?ms init_state"
  have g: "extract_group_id ?m = ''1''" by code_simp
  have t: "extract_text ?m = ''D''" by code_simp
  have ob: "observed ?m" by code_simp
  have w: "window ?S ''1'' = [''A'', ''B'', ''C'']" by code_simp
  have r: "fst (execute config_schema (\<lambda>_. 1 / 2) ?m ?S) = Inr handled" by code_simp
  from window_at_most_three_fifo
    [where cfg = config_schema and rnd = "\<lambda>_. 1 / 2" and ms = "?ms @ [?m]" and m = ?m
       and s = ?S and a = "''A''" and b = "''B''" and c = "''C''"]
    g t ob w r
  show ?thesis by simp
qed

section \<open>The trigger along a streak\<close>

lemma two_last: "2 \<le> length h \<Longrightarrow> \<exists>xs a b. h = xs @ [a, b]"
proof -
  assume l: "2 \<le> length h"
  then obtain ys b where h: "h = ys @ [b]"
    by (cases h rule: rev_cases) auto
  with l obtain xs a where "ys = xs @ [a]"
    by (cases ys rule: rev_cases) auto
  with h show ?thesis by simp
qed

lemma repeat_trigger_snoc2 [simp]: "repeat_trigger (xs @ [a, b]) t = (b = a \<and> a = t)"
  by (simp add: repeat_trigger_def nth_append)

lemma repeat_trigger_last_two:
  "repeat_trigger h t = (2 \<le> length h \<and> drop (length h - 2) h = [t, t])"
proof (cases "2 \<le> length h")
  case True
  then obtain xs a b where "h = xs @ [a, b]" using two_last by blast
  then show ?thesis by auto
next
  case False
  then show ?thesis by (simp add: repeat_trigger_def)
qed

lemma trigger_last: "repeat_trigger h t \<Longrightarrow> h \<noteq> [] \<and> last h = t"
  by (auto simp: repeat_trigger_last_two dest!: two_last)

lemma deque_append_last: "deque_append h t \<noteq> [] \<and> last (deque_append h t) = t"
  by (simp add: deque_append_def)

lemma deque_append_trigger:
  "h \<noteq> [] \<Longrightarrow> last h = t \<Longrightarrow> repeat_trigger (deque_append h t) t"
proof -
  assume h: "h \<noteq> []" "last h = t"
  then obtain ys where ys: "h = ys @ [t]"
    by (cases h rule: rev_cases) auto
  show ?thesis
  proof (cases "length h = 3")
    case True
    with ys obtain a b where "ys = [a, b]"
      by (cases ys; cases "tl ys"; cases "tl (tl ys)") auto
    with ys show ?thesis
      using repeat_trigger_snoc2 [of "[b]" t t t] by (simp add: deque_append_def)
  next
    case False
    with ys show ?thesis
      using repeat_trigger_snoc2 [of ys t t t] by (simp add: deque_append_def)
  qed
qed

lemma streak_step_last:
  assumes "observed m"
  shows "window (snd (execute cfg rnd m s)) (extract_group_id m) \<noteq> [] \<and>
         last (window (snd (execute cfg rnd m s)) (extract_group_id m)) = extract_text m"
  using assms
  by (auto simp: execute_window deque_append_last echo_attempt_def dest: trigger_last)

lemma streak_step_trigger:
  assumes "observed m" "window s (extract_group_id m) \<noteq> []"
    "last (window s (extract_group_id m)) = extract_text m"
  shows "repeat_trigger (window (snd (execute cfg rnd m s)) (extract_group_id m)) (extract_text m)"
  using assms
  by (auto simp: execute_window deque_append_trigger echo_attempt_def)

lemma streak_trigger:
  assumes "\<forall>m\<in>set ms. observed m \<and> extract_group_id m = g \<and> extract_text m = t"
    and "2 \<le> length ms"
  shows "repeat_trigger (window (run cfg rnd ms s) g) t"
proof -
  from assms(2) obtain ns n m where ms: "ms = ns @ [n, m]"
    using two_last by blast
  from assms(1) ms have n: "observed n" "extract_group_id n = g" "extract_text n = t"
    by simp_all
  from assms(1) ms have m: "observed m" "extract_group_id m = g" "extract_text m = t"
    by simp_all
  let ?s1 = "run cfg rnd ns s"
  let ?s2 = "snd (execute cfg rnd n ?s1)"
  have run: "run cfg rnd ms s = snd (execute cfg rnd m ?s2)"
    unfolding ms by (simp add: run_append)
  have "window ?s2 g \<noteq> [] \<and> last (window ?s2 g) = t"
    using streak_step_last [OF n(1), of cfg rnd ?s1] n(2,3) by simp
  then have "repeat_trigger (window (snd (execute cfg rnd m ?s2)) g) t"
    using streak_step_trigger [OF m(1), of ?s2 cfg rnd] m(2,3) by simp
  then show ?thesis by (simp only: run)
qed

text \<open>
  Claim C10. In a streak of observed messages of one group with one text, the detector
  fires on every message from the third on (index \<open>k \<ge> 2\<close>, whatever state the streak
  started in and whatever the earlier calls decided), and such a later message is echoed
  whenever its own two draws pass the gates, the guard holds another text and
  \<^verbatim>\<open>int(group_id)\<close> succeeds.
\<close>

theorem streak_triggers_from_third:
  assumes "\<forall>m\<in>set ms. observed m \<and> extract_group_id m = g \<and> extract_text m = t"
    and "2 \<le> k" and "k < length ms"
  shows "repeat_trigger (window (run cfg rnd (take k ms) s) g) t \<and>
    (\<not> rnd (draws_used (run cfg rnd (take k ms) s)) \<le> get_config (skip_probability cfg) 0 \<and>
     rnd (Suc (draws_used (run cfg rnd (take k ms) s))) \<le> get_config (repeat_probability cfg) 1 \<and>
     Some t \<noteq> last_repeated_message (run cfg rnd (take k ms) s) \<and>
     py_int g = Some gid \<longrightarrow>
     outbox (snd (execute cfg rnd (ms ! k) (run cfg rnd (take k ms) s))) =
       outbox (run cfg rnd (take k ms) s) @ [(gid, re_sub_mention t)])"
proof -
  let ?S = "run cfg rnd (take k ms) s"
  have "\<forall>m\<in>set (take k ms). observed m \<and> extract_group_id m = g \<and> extract_text m = t"
    using assms(1) by (meson in_set_takeD)
  moreover have "2 \<le> length (take k ms)"
    using assms(2,3) by simp
  ultimately have trig: "repeat_trigger (window ?S g) t"
    by (rule streak_trigger)
  have "ms ! k \<in> set ms"
    using assms(3) by simp
  with assms(1) have mk: "observed (ms ! k)" "extract_group_id (ms ! k) = g" "extract_text (ms ! k) = t"
    by simp_all
  show ?thesis
    using trig mk by (simp add: execute_outbox echo_attempt_def)
qed

text \<open>
  The theorem at four messages \<open>A\<close> in group 1 with the declared defaults 0.1 and 0.7:
  the third is skipped (draw 0.05), the fourth is echoed (draws 0.5 and 0.5).
\<close>

theorem streak_triggers_from_third_witness:
  "observed (group_message ''1'' ''A'' False) \<and>
   extract_group_id (group_message ''1'' ''A'' False) = ''1'' \<and>
   extract_text (group_message ''1'' ''A'' False) = ''A'' \<and>
   outbox (run config_schema (\<lambda>i. if i = 0 then 0.05 else 0.5)
     [group_message ''1'' ''A'' False, group_message ''1'' ''A'' False,
      group_message ''1'' ''A'' False] init_state) = [] \<and>
   repeat_trigger (window (run config_schema (\<lambda>i. if i = 0 then 0.05 else 0.5)
     [group_message ''1'' ''A'' False, group_message ''1'' ''A'' False,
      group_message ''1'' ''A'' False] init_state) ''1'') ''A'' \<and>
   outbox (snd (execute config_schema (\<lambda>i. if i = 0 then 0.05 else 0.5)
     (group_message ''1'' ''A'' False)
     (run config_schema (\<lambda>i. if i = 0 then 0.05 else 0.5)
       [group_message ''1'' ''A'' False, group_message ''1'' ''A'' False,
        group_message ''1'' ''A'' False] init_state))) = [(1, ''A'')]"
proof -
  let ?A = "group_message ''1'' ''A'' False"
  let ?rnd = "\<lambda>i::nat. if i = 0 then 0.05 else (0.5::real)"
  let ?S = "run config_schema ?rnd [?A, ?A, ?A] init_state"
  have ob: "observed ?A" by code_simp
  have g: "extract_group_id ?A = ''1''" by code_simp
  have t: "extract_text ?A = ''A''" by code_simp
  have o3: "outbox ?S = []" by code_simp
  have d3: "draws_used ?S = 1" by code_simp
  have l3: "last_repeated_message ?S = None" by code_simp
  have pi: "py_int ''1'' = Some 1" by code_simp
  have rs: "re_sub_mention ''A'' = ''A''" by code_simp
  from streak_triggers_from_third
    [where ms = "[?A, ?A, ?A, ?A]" and g = "''1''" and t = "''A''" and k = 3
       and cfg = config_schema and rnd = ?rnd and s = init_state and gid = 1]
    ob g t o3 d3 l3 pi rs
  show ?thesis by (simp add: config_schema_def get_config_def)
qed

section \<open>Distinct texts\<close>

lemma deque_append_set: "set (deque_append h t) \<subseteq> insert t (set h)"
  by (cases h) (auto simp: deque_append_def)

lemma execute_window_texts:
  "set (window (snd (execute cfg rnd m s)) g) \<subseteq>
     set (window s g) \<union> (if observed m then {extract_text m} else {})"
  using deque_append_set [of "window s g" "extract_text m"]
  by (auto simp: execute_window)

lemma observed_texts_snoc:
  "observed_texts (ms @ [m]) = observed_texts ms @ (if observed m then [extract_text m] else [])"
  by (simp add: observed_texts_def)

lemma run_window_texts:
  "set (window (run cfg rnd ms s) g) \<subseteq> set (window s g) \<union> set (observed_texts ms)"
proof (induction ms rule: rev_induct)
  case Nil
  then show ?case by (simp add: observed_texts_def)
next
  case (snoc m ms)
  have "set (window (run cfg rnd (ms @ [m]) s) g) \<subseteq>
        set (window (run cfg rnd ms s) g) \<union> (if observed m then {extract_text m} else {})"
    by (simp only: run_snoc execute_window_texts)
  with snoc show ?case
    by (auto simp: observed_texts_snoc split: if_splits)
qed

lemma distinct_no_trigger:
  assumes "distinct (observed_texts ms)" and "k < length ms" and "observed (ms ! k)"
  shows "\<not> repeat_trigger (window (run cfg rnd (take k ms) init_state) (extract_group_id (ms ! k)))
           (extract_text (ms ! k))"
proof
  let ?t = "extract_text (ms ! k)"
  assume "repeat_trigger (window (run cfg rnd (take k ms) init_state) (extract_group_id (ms ! k))) ?t"
  then have "?t \<in> set (window (run cfg rnd (take k ms) init_state) (extract_group_id (ms ! k)))"
    using trigger_last last_in_set by metis
  then have in_before: "?t \<in> set (observed_texts (take k ms))"
    using run_window_texts [of cfg rnd "take k ms" init_state "extract_group_id (ms ! k)"]
    by (auto simp: window_init)
  have "ms = take k ms @ ms ! k # drop (Suc k) ms"
    using assms(2) by (simp add: id_take_nth_drop)
  then have "observed_texts ms =
      observed_texts (take k ms) @ ?t # observed_texts (drop (Suc k) ms)"
    using assms(3) by (metis (no_types, lifting) observed_texts_def filter.simps(2) filter_append
        list.simps(9) map_append)
  with assms(1) have "?t \<notin> set (observed_texts (take k ms))"
    by simp
  with in_before show False by simp
qed

lemma no_trigger_no_echo:
  assumes "\<forall>k<length ms. \<not> (observed (ms ! k) \<and>
      repeat_trigger (window (run cfg rnd (take k ms) s) (extract_group_id (ms ! k)))
        (extract_text (ms ! k)))"
  shows "outbox (run cfg rnd ms s) = outbox s"
  using assms
proof (induction ms rule: rev_induct)
  case Nil
  then show ?case by simp
next
  case (snoc m ms)
  have "\<forall>k<length ms. \<not> (observed (ms ! k) \<and>
      repeat_trigger (window (run cfg rnd (take k ms) s) (extract_group_id (ms ! k)))
        (extract_text (ms ! k)))"
  proof (intro allI impI)
    fix k assume k: "k < length ms"
    then have "k < length (ms @ [m])" by simp
    with snoc.prems have "\<not> (observed ((ms @ [m]) ! k) \<and>
      repeat_trigger (window (run cfg rnd (take k (ms @ [m])) s) (extract_group_id ((ms @ [m]) ! k)))
        (extract_text ((ms @ [m]) ! k)))" by blast
    with k show "\<not> (observed (ms ! k) \<and>
      repeat_trigger (window (run cfg rnd (take k ms) s) (extract_group_id (ms ! k)))
        (extract_text (ms ! k)))"
      by (simp add: nth_append)
  qed
  then have ih: "outbox (run cfg rnd ms s) = outbox s"
    by (rule snoc.IH)
  have "\<not> (observed ((ms @ [m]) ! length ms) \<and>
      repeat_trigger (window (run cfg rnd (take (length ms) (ms @ [m])) s)
        (extract_group_id ((ms @ [m]) ! length ms))) (extract_text ((ms @ [m]) ! length ms)))"
    using snoc.prems by (metis length_append_singleton lessI)
  then have "\<not> (observed m \<and>
      repeat_trigger (window (run cfg rnd ms s) (extract_group_id m)) (extract_text m))"
    by simp
  then have "outbox (snd (execute cfg rnd m (run cfg rnd ms s))) = outbox (run cfg rnd ms s)"
    by (auto simp: execute_outbox echo_attempt_def)
  with ih show ?case by (simp add: run_snoc)
qed

text \<open>
  Claim C2. The detector looks at the window as it is before the call: it fires exactly
  when that window holds at least 2 entries and its last two entries both equal the
  incoming text, and a call hands a request to the gateway only for an observed message
  on which it fires. Starting from the empty history, if the texts of the observed
  messages are pairwise distinct, the detector fires on no message and the outbox stays
  empty. (The text of a message is the extracted one, with surrounding whitespace
  removed.)
\<close>

theorem trigger_on_last_two_and_distinct_never_echo:
  "(repeat_trigger h t \<longleftrightarrow> 2 \<le> length h \<and> drop (length h - 2) h = [t, t]) \<and>
   (outbox (snd (execute cfg rnd m s)) \<noteq> outbox s \<longrightarrow>
      observed m \<and> repeat_trigger (window s (extract_group_id m)) (extract_text m)) \<and>
   (distinct (observed_texts ms) \<longrightarrow>
      (\<forall>k<length ms. \<not> (observed (ms ! k) \<and>
         repeat_trigger (window (run cfg rnd (take k ms) init_state) (extract_group_id (ms ! k)))
           (extract_text (ms ! k)))) \<and>
      outbox (run cfg rnd ms init_state) = [])"
proof (intro conjI impI)
  show "repeat_trigger h t \<longleftrightarrow> 2 \<le> length h \<and> drop (length h - 2) h = [t, t]"
    by (rule repeat_trigger_last_two)
next
  assume "outbox (snd (execute cfg rnd m s)) \<noteq> outbox s"
  then have "observed m \<and> echo_attempt cfg rnd (extract_group_id m) (extract_text m) s"
    by (simp add: execute_outbox split: if_splits)
  then show "observed m" and "repeat_trigger (window s (extract_group_id m)) (extract_text m)"
    by (simp_all add: echo_attempt_def)
next
  assume d: "distinct (observed_texts ms)"
  then show never: "\<forall>k<length ms. \<not> (observed (ms ! k) \<and>
         repeat_trigger (window (run cfg rnd (take k ms) init_state) (extract_group_id (ms ! k)))
           (extract_text (ms ! k)))"
    using distinct_no_trigger by blast
  then have "outbox (run cfg rnd ms init_state) = outbox init_state"
    by (rule no_trigger_no_echo)
  then show "outbox (run cfg rnd ms init_state) = []"
    by (simp add: init_state_def)
qed

text \<open>
  The theorem at the texts \<open>A, B, C, D\<close> in group 1, with both probabilities at their
  handler defaults and every draw one half.
\<close>

theorem trigger_on_last_two_and_distinct_never_echo_witness:
  "distinct (observed_texts
     [group_message ''1'' ''A'' False, group_message ''1'' ''B'' False,
      group_message ''1'' ''C'' False, group_message ''1'' ''D'' False]) \<and>
   outbox (run \<lparr>debug_mode = None, repeat_probability = None, skip_probability = None\<rparr>
     (\<lambda>_. 1 / 2)
     [group_message ''1'' ''A'' False, group_message ''1'' ''B'' False,
      group_message ''1'' ''C'' False, group_message ''1'' ''D'' False] init_state) = [] \<and>
   repeat_trigger [''B'', ''A'', ''A''] ''A'' \<and> \<not> repeat_trigger [''A'', ''A'', ''B''] ''A''"
proof -
  let ?ms = "[group_message ''1'' ''A'' False, group_message ''1'' ''B'' False,
      group_message ''1'' ''C'' False, group_message ''1'' ''D'' False]"
  let ?cfg = "\<lparr>debug_mode = None, repeat_probability = None, skip_probability = None\<rparr>"
  have d: "distinct (observed_texts ?ms)" by code_simp
  from trigger_on_last_two_and_distinct_never_echo
    [where ms = ?ms and cfg = ?cfg and rnd = "\<lambda>_. 1 / 2" and h = "[''B'', ''A'', ''A'']" and t = "''A''"]
    trigger_on_last_two_and_distinct_never_echo
    [where ms = ?ms and cfg = ?cfg and rnd = "\<lambda>_. 1 / 2" and h = "[''A'', ''A'', ''B'']" and t = "''A''"]
    d
  show ?thesis by simp
qed

section \<open>The guard\<close>

lemma outbox_grows: "\<exists>ys. outbox (run cfg rnd ms s) = outbox s @ ys"
proof (induction ms arbitrary: s)
  case Nil
  then show ?case by simp
next
  case (Cons m ms)
  obtain ys where ys: "outbox (run cfg rnd ms (snd (execute cfg rnd m s))) =
      outbox (snd (execute cfg rnd m s)) @ ys"
    using Cons by blast
  obtain zs where "outbox (snd (execute cfg rnd m s)) = outbox s @ zs"
    by (cases "outbox (snd (execute cfg rnd m s)) = outbox s") (auto simp: execute_outbox split: if_splits)
  with ys show ?case by simp
qed

lemma guard_kept:
  assumes "last_repeated_message s = Some t"
    and "\<forall>m\<in>set ms. \<not> clears_guard t m"
    and "outbox (run cfg rnd ms s) = outbox s"
  shows "last_repeated_message (run cfg rnd ms s) = Some t"
  using assms
proof (induction ms arbitrary: s)
  case Nil
  then show ?case by simp
next
  case (Cons m ms)
  let ?s1 = "snd (execute cfg rnd m s)"
  obtain zs where zs: "outbox ?s1 = outbox s @ zs"
    using outbox_grows [of cfg rnd "[m]" s] by auto
  obtain ys where ys: "outbox (run cfg rnd ms ?s1) = outbox ?s1 @ ys"
    using outbox_grows by blast
  from Cons.prems(3) zs ys have same: "outbox ?s1 = outbox s" and rest: "outbox (run cfg rnd ms ?s1) = outbox ?s1"
    by simp_all
  from same have no_echo: "\<not> (observed m \<and> echo_attempt cfg rnd (extract_group_id m) (extract_text m) s \<and>
         py_int (extract_group_id m) \<noteq> None)"
    by (simp add: execute_outbox split: if_splits)
  from Cons.prems(2) have nc: "\<not> clears_guard t m" by simp
  have "last_repeated_message ?s1 = Some t"
  proof (cases "clears_guard (extract_text m) m \<and> last_repeated_message s = Some (extract_text m)")
    case True
    with Cons.prems(1) have "extract_text m = t" by simp
    with True nc show ?thesis by simp
  next
    case False
    with no_echo Cons.prems(1) show ?thesis
      by (auto simp: execute_guard)
  qed
  moreover from Cons.prems(2) have "\<forall>m\<in>set ms. \<not> clears_guard t m" by simp
  ultimately have "last_repeated_message (run cfg rnd ms ?s1) = Some t"
    using rest by (rule Cons.IH)
  then show ?case by simp
qed

text \<open>
  Claim C5, as amended. After an echo of a text (the guard holds it), as long as no
  self-message with this text has reached the guard and no other echo has been sent, a
  message with this text is not echoed, in whatever group it arrives and whatever the two
  draws are: the outbox stays as it was, and so does the guard.
\<close>

theorem guarded_text_not_echoed_again:
  assumes "last_repeated_message s = Some t"
    and "\<forall>m\<in>set ms. \<not> clears_guard t m"
    and "outbox (run cfg rnd ms s) = outbox s"
    and "extract_text m = t" and "\<not> clears_guard t m"
  shows "outbox (snd (execute cfg rnd m (run cfg rnd ms s))) = outbox s \<and>
         last_repeated_message (snd (execute cfg rnd m (run cfg rnd ms s))) = Some t"
proof -
  have g: "last_repeated_message (run cfg rnd ms s) = Some t"
    using assms(1-3) by (rule guard_kept)
  then have "\<not> echo_attempt cfg rnd (extract_group_id m) (extract_text m) (run cfg rnd ms s)"
    using assms(4) by (simp add: echo_attempt_def)
  then show ?thesis
    using g assms(3,4,5) by (simp add: execute_outbox execute_guard)
qed

text \<open>
  The theorem in group 2: group 1 has echoed \<open>A\<close>, then group 2 sees \<open>A, A\<close>
  (no echo, no self-message), and the third \<open>A\<close> in group 2 is not echoed although both
  gates pass.
\<close>

theorem guarded_text_not_echoed_again_witness:
  "last_repeated_message (run \<lparr>debug_mode = None, repeat_probability = Some 1, skip_probability = Some 0\<rparr>
      (\<lambda>_. 1 / 2)
      [group_message ''1'' ''A'' False, group_message ''1'' ''A'' False,
       group_message ''1'' ''A'' False] init_state) = Some ''A'' \<and>
   \<not> clears_guard ''A'' (group_message ''2'' ''A'' False) \<and>
   extract_text (group_message ''2'' ''A'' False) = ''A'' \<and>
   outbox (snd (execute \<lparr>debug_mode = None, repeat_probability = Some 1, skip_probability = Some 0\<rparr>
      (\<lambda>_. 1 / 2) (group_message ''2'' ''A'' False)
      (run \<lparr>debug_mode = None, repeat_probability = Some 1, skip_probability = Some 0\<rparr>
        (\<lambda>_. 1 / 2)
        [group_message ''1'' ''A'' False, group_message ''1'' ''A'' False,
         group_message ''1'' ''A'' False, group_message ''2'' ''A'' False,
         group_message ''2'' ''A'' False] init_state))) = [(1, ''A'')]"
proof -
  let ?cfg = "\<lparr>debug_mode = None, repeat_probability = Some 1, skip_probability = Some 0\<rparr>"
  let ?A1 = "group_message ''1'' ''A'' False"
  let ?A2 = "group_message ''2'' ''A'' False"
  let ?s = "run ?cfg (\<lambda>_. 1 / 2) [?A1, ?A1, ?A1] init_state"
  have g: "last_repeated_message ?s = Some ''A''" by code_simp
  have o: "outbox ?s = [(1, ''A'')]" by code_simp
  have c: "\<not> clears_guard ''A'' ?A2" by code_simp
  have t: "extract_text ?A2 = ''A''" by code_simp
  have o2: "outbox (run ?cfg (\<lambda>_. 1 / 2) [?A2, ?A2] ?s) = outbox ?s" by code_simp
  have r: "run ?cfg (\<lambda>_. 1 / 2) [?A1, ?A1, ?A1, ?A2, ?A2] init_state =
           run ?cfg (\<lambda>_. 1 / 2) [?A2, ?A2] ?s"
    using run_append [of ?cfg "\<lambda>_. 1 / 2" "[?A1, ?A1, ?A1]" "[?A2, ?A2]" init_state] by simp
  from guarded_text_not_echoed_again
    [where s = ?s and t = "''A''" and ms = "[?A2, ?A2]" and m = ?A2 and cfg = ?cfg
       and rnd = "\<lambda>_. 1 / 2"]
    g c t o2 o
  have "outbox (snd (execute ?cfg (\<lambda>_. 1 / 2) ?A2 (run ?cfg (\<lambda>_. 1 / 2) [?A2, ?A2] ?s))) = [(1, ''A'')]"
    by simp
  with g c t r show ?thesis by (simp only: simp_thms)
qed

text \<open>
  Claim C5 as stated fails: the guard holds one text only. With group 1 receiving
  \<open>A, A, A, B, B, B, A, A, A\<close>, no message being a self-message and every gate
  passing, \<open>A\<close> is echoed, then \<open>B\<close>, then \<open>A\<close> again.
\<close>

theorem guard_overwritten_counterexample:
  "outbox (run \<lparr>debug_mode = None, repeat_probability = Some 1, skip_probability = Some 0\<rparr>
      (\<lambda>_. 1 / 2)
      [group_message ''1'' ''A'' False, group_message ''1'' ''A'' False,
       group_message ''1'' ''A'' False, group_message ''1'' ''B'' False,
       group_message ''1'' ''B'' False, group_message ''1'' ''B'' False,
       group_message ''1'' ''A'' False, group_message ''1'' ''A'' False,
       group_message ''1'' ''A'' False] init_state) = [(1, ''A''), (1, ''B''), (1, ''A'')] \<and>
   is_self (group_message ''1'' ''A'' False) = False \<and>
   is_self (group_message ''1'' ''B'' False) = False"
  by code_simp

section \<open>Three equal messages\<close>

lemma no_trigger_short: "length h < 2 \<Longrightarrow> \<not> repeat_trigger h t"
  by (simp add: repeat_trigger_def)

lemma quiet_step:
  assumes "observed m" and "\<not> repeat_trigger (window s (extract_group_id m)) (extract_text m)"
  shows "window (snd (execute cfg rnd m s)) (extract_group_id m) =
           deque_append (window s (extract_group_id m)) (extract_text m)"
    and "outbox (snd (execute cfg rnd m s)) = outbox s"
    and "last_repeated_message (snd (execute cfg rnd m s)) = last_repeated_message s"
    and "draws_used (snd (execute cfg rnd m s)) = draws_used s"
  using assms
  by (simp_all add: execute_window execute_outbox execute_guard execute_draws echo_attempt_def
        observed_def clears_guard_def)

text \<open>
  Claim C1, as amended. A group has no history yet and the guard is unset. Three
  observed messages with one text arrive in that group, with
  \<^verbatim>\<open>repeat_probability = 1.0\<close> and \<^verbatim>\<open>skip_probability = 0.0\<close>. For every sequence of
  draws in \<open>[0, 1)\<close> whose value taken by the skip gate on the third message is not 0, and
  for a group id that \<^verbatim>\<open>int()\<close> accepts, exactly one request is handed to the gateway,
  for that group and with the text (mentions rewritten; \<open>A\<close> stays \<open>A\<close>), and the guard
  holds the text afterwards.
\<close>

theorem three_identical_messages_echo_once:
  assumes "\<forall>m\<in>set [m1, m2, m3]. observed m \<and> extract_group_id m = g \<and> extract_text m = t"
    and "window s g = []" and "last_repeated_message s = None"
    and "repeat_probability cfg = Some 1" and "skip_probability cfg = Some 0"
    and "\<forall>i. 0 \<le> rnd i \<and> rnd i < 1"
    and "rnd (draws_used s) \<noteq> 0"
    and "py_int g = Some gid"
  shows "outbox (run cfg rnd [m1, m2, m3] s) = outbox s @ [(gid, re_sub_mention t)] \<and>
         last_repeated_message (run cfg rnd [m1, m2, m3] s) = Some t"
proof -
  from assms(1) have m1: "observed m1" "extract_group_id m1 = g" "extract_text m1 = t"
    and m2: "observed m2" "extract_group_id m2 = g" "extract_text m2 = t"
    and m3: "observed m3" "extract_group_id m3 = g" "extract_text m3 = t"
    by simp_all
  let ?s1 = "snd (execute cfg rnd m1 s)"
  let ?s2 = "snd (execute cfg rnd m2 ?s1)"
  let ?s3 = "snd (execute cfg rnd m3 ?s2)"
  have n1: "\<not> repeat_trigger (window s (extract_group_id m1)) (extract_text m1)"
    using assms(2) m1 by (simp add: no_trigger_short)
  have w1: "window ?s1 g = [t]" and o1: "outbox ?s1 = outbox s"
    and l1: "last_repeated_message ?s1 = None" and d1: "draws_used ?s1 = draws_used s"
    using quiet_step [OF m1(1) n1, of cfg rnd] m1 assms(2,3)
    by (simp_all add: deque_append_def)
  have n2: "\<not> repeat_trigger (window ?s1 (extract_group_id m2)) (extract_text m2)"
    using w1 m2 by (simp add: no_trigger_short)
  have w2: "window ?s2 g = [t, t]" and o2: "outbox ?s2 = outbox s"
    and l2: "last_repeated_message ?s2 = None" and d2: "draws_used ?s2 = draws_used s"
    using quiet_step [OF m2(1) n2, of cfg rnd] m2 w1 o1 l1 d1
    by (simp_all add: deque_append_def)
  have trig: "repeat_trigger (window ?s2 g) t"
    using w2 by (simp add: repeat_trigger_def)
  have "0 \<le> rnd (draws_used s)" "rnd (Suc (draws_used s)) < 1"
    using assms(6) by simp_all
  with assms(7) have gates: "\<not> rnd (draws_used ?s2) \<le> get_config (skip_probability cfg) 0"
    "rnd (Suc (draws_used ?s2)) \<le> get_config (repeat_probability cfg) 1"
    using assms(4,5) d2 by (simp_all add: get_config_def)
  have att: "echo_attempt cfg rnd (extract_group_id m3) (extract_text m3) ?s2"
    using trig gates l2 m3 by (simp add: echo_attempt_def)
  have "outbox ?s3 = outbox s @ [(gid, re_sub_mention t)]"
    using att m3 assms(8) o2 by (simp add: execute_outbox)
  moreover have "last_repeated_message ?s3 = Some t"
    using att m3 assms(8) by (simp add: execute_guard)
  ultimately show ?thesis by simp
qed

text \<open>The theorem at three messages \<open>A\<close> in group 1, every draw being one half.\<close>

theorem three_identical_messages_echo_once_witness:
  "observed (group_message ''1'' ''A'' False) \<and>
   extract_group_id (group_message ''1'' ''A'' False) = ''1'' \<and>
   extract_text (group_message ''1'' ''A'' False) = ''A'' \<and>
   window init_state ''1'' = [] \<and> last_repeated_message init_state = None \<and>
   (\<forall>i. (0::real) \<le> (\<lambda>_. 1 / 2) i \<and> (\<lambda>_. 1 / 2 :: real) i < 1) \<and>
   (\<lambda>_. 1 / 2 :: real) (draws_used init_state) \<noteq> 0 \<and>
   py_int ''1'' = Some 1 \<and>
   outbox (run \<lparr>debug_mode = None, repeat_probability = Some 1, skip_probability = Some 0\<rparr>
     (\<lambda>_. 1 / 2)
     [group_message ''1'' ''A'' False, group_message ''1'' ''A'' False,
      group_message ''1'' ''A'' False] init_state) = [(1, ''A'')] \<and>
   last_repeated_message
     (run \<lparr>debug_mode = None, repeat_probability = Some 1, skip_probability = Some 0\<rparr>
       (\<lambda>_. 1 / 2)
       [group_message ''1'' ''A'' False, group_message ''1'' ''A'' False,
        group_message ''1'' ''A'' False] init_state) = Some ''A''"
proof -
  let ?A = "group_message ''1'' ''A'' False"
  have ob: "observed ?A" by code_simp
  have g: "extract_group_id ?A = ''1''" by code_simp
  have t: "extract_text ?A = ''A''" by code_simp
  have pi: "py_int ''1'' = Some 1" by code_simp
  have rs: "re_sub_mention ''A'' = ''A''" by code_simp
  have i: "window init_state ''1'' = []" "last_repeated_message init_state = None"
    "outbox init_state = []" "draws_used init_state = 0"
    by (simp_all add: window_def init_state_def)
  from three_identical_messages_echo_once
    [where ?m1.0 = ?A and ?m2.0 = ?A and ?m3.0 = ?A and g = "''1''" and t = "''A''"
       and s = init_state and gid = 1 and rnd = "\<lambda>_. 1 / 2"
       and cfg = "\<lparr>debug_mode = None, repeat_probability = Some 1, skip_probability = Some 0\<rparr>"]
    ob g t pi rs i
  show ?thesis by simp
qed

text \<open>
  Claim C1 as stated fails at a draw the generator can return: with every draw 0 the
  skip gate \<^verbatim>\<open>random.random() <= skip_probability\<close> is \<open>0 \<le> 0\<close>, the third message
  is skipped, nothing is sent and the guard stays unset.
\<close>

theorem draw_zero_skips_counterexample:
  "outbox (run \<lparr>debug_mode = None, repeat_probability = Some 1, skip_probability = Some 0\<rparr>
     (\<lambda>_. 0)
     [group_message ''1'' ''A'' False, group_message ''1'' ''A'' False,
      group_message ''1'' ''A'' False] init_state) = [] \<and>
   last_repeated_message
     (run \<lparr>debug_mode = None, repeat_probability = Some 1, skip_probability = Some 0\<rparr>
       (\<lambda>_. 0)
       [group_message ''1'' ''A'' False, group_message ''1'' ''A'' False,
        group_message ''1'' ''A'' False] init_state) = None"
proof -
  have "outbox (run \<lparr>debug_mode = None, repeat_probability = Some 1, skip_probability = Some 0\<rparr>
     (\<lambda>_. 0)
     [group_message ''1'' ''A'' False, group_message ''1'' ''A'' False,
      group_message ''1'' ''A'' False] init_state) = []"
    by code_simp
  moreover have "last_repeated_message
     (run \<lparr>debug_mode = None, repeat_probability = Some 1, skip_probability = Some 0\<rparr>
       (\<lambda>_. 0)
       [group_message ''1'' ''A'' False, group_message ''1'' ''A'' False,
        group_message ''1'' ''A'' False] init_state) = None"
    by code_simp
  ultimately show ?thesis by simp
qed

section \<open>Mentions\<close>

lemma match_mention_no_prefix:
  "strip_prefix ''@<'' s = None \<Longrightarrow> match_mention s = None"
  by (simp add: match_mention_def)

lemma re_sub_mention_plain:
  "no_mention_start pre \<Longrightarrow> (rest = [] \<or> hd rest \<noteq> CHR ''<'') \<Longrightarrow>
   re_sub_mention (pre @ rest) = pre @ re_sub_mention rest"
proof (induction pre)
  case Nil
  then show ?case by simp
next
  case (Cons c cs)
  have "strip_prefix ''@<'' (c # cs @ rest) = None"
  proof (cases cs)
    case Nil
    with Cons.prems(2) show ?thesis
      by (cases rest) (auto simp: strip_prefix_def)
  next
    case (Cons b bs)
    with Cons.prems(1) show ?thesis
      by (auto simp: strip_prefix_def)
  qed
  then have "match_mention (c # cs @ rest) = None"
    by (rule match_mention_no_prefix)
  moreover have "no_mention_start cs"
    using Cons.prems(1) by (cases cs) simp_all
  ultimately show ?case
    using Cons.IH Cons.prems(2) by simp
qed

lemma match_mention_at:
  assumes "name \<noteq> []" and "CHR '':'' \<notin> set name"
    and "ds \<noteq> []" and "\<forall>c\<in>set ds. py_isdigit c"
  shows "match_mention (''@<'' @ name @ '':'' @ ds @ ''>'' @ post) = Some (name, post)"
proof -
  have nd: "\<not> py_isdigit (CHR ''>'')"
    by (simp add: py_isdigit_def)
  have p: "strip_prefix ''@<'' (''@<'' @ name @ '':'' @ ds @ ''>'' @ post) =
      Some (name @ CHR '':'' # ds @ CHR ''>'' # post)"
    by (simp add: strip_prefix_def)
  have t1: "takeWhile (\<lambda>c. c \<noteq> CHR '':'') (name @ CHR '':'' # ds @ CHR ''>'' # post) = name"
    using assms(2) by (auto simp: takeWhile_tail)
  have d1: "dropWhile (\<lambda>c. c \<noteq> CHR '':'') (name @ CHR '':'' # ds @ CHR ''>'' # post) =
      CHR '':'' # ds @ CHR ''>'' # post"
    using assms(2) by (auto simp: dropWhile_append3)
  have t2: "takeWhile py_isdigit (ds @ CHR ''>'' # post) = ds"
    using assms(4) nd by (auto simp: takeWhile_tail)
  have d2: "dropWhile py_isdigit (ds @ CHR ''>'' # post) = CHR ''>'' # post"
    using assms(4) nd by (auto simp: dropWhile_append3)
  show ?thesis
    unfolding match_mention_def p
    using assms(1,3) by (simp add: t1 d1 t2 d2 Let_def)
qed

lemma re_sub_mention_at:
  assumes "name \<noteq> []" and "CHR '':'' \<notin> set name"
    and "ds \<noteq> []" and "\<forall>c\<in>set ds. py_isdigit c"
  shows "re_sub_mention (''@<'' @ name @ '':'' @ ds @ ''>'' @ post) =
         ''@'' @ name @ re_sub_mention post"
proof -
  have "re_sub_mention (CHR ''@'' # (CHR ''<'' # name @ '':'' @ ds @ ''>'' @ post)) =
      (case match_mention (CHR ''@'' # (CHR ''<'' # name @ '':'' @ ds @ ''>'' @ post)) of
         Some (name, rest) \<Rightarrow> CHR ''@'' # name @ re_sub_mention rest
       | None \<Rightarrow> CHR ''@'' # re_sub_mention (CHR ''<'' # name @ '':'' @ ds @ ''>'' @ post))"
    by (rule re_sub_mention.simps(2))
  then show ?thesis
    using match_mention_at [OF assms, of post] by simp
qed

lemma re_sub_mention_shape:
  assumes "no_mention_start pre" and "name \<noteq> []" and "CHR '':'' \<notin> set name"
    and "ds \<noteq> []" and "\<forall>c\<in>set ds. py_isdigit c"
  shows "re_sub_mention (pre @ ''@<'' @ name @ '':'' @ ds @ ''>'' @ post) =
         pre @ ''@'' @ name @ re_sub_mention post"
proof -
  have "re_sub_mention (pre @ (''@<'' @ name @ '':'' @ ds @ ''>'' @ post)) =
      pre @ re_sub_mention (''@<'' @ name @ '':'' @ ds @ ''>'' @ post)"
    using assms(1) by (intro re_sub_mention_plain) simp_all
  then show ?thesis
    using re_sub_mention_at [OF assms(2-5), of post] by simp
qed

text \<open>
  Claim C9. Whenever a call hands a request to the gateway, the text sent is the text of
  the message with every mention rewritten by \<^verbatim>\<open>re.sub\<close> (leftmost match first, then on
  after it): a text \<open>pre @<name:digits> post\<close>, where \<open>pre\<close> holds no opening
  marker, is sent as \<open>pre @name\<close> followed by the rewritten \<open>post\<close>. The guard and the
  entry appended to the group's window are the text as it came, not rewritten.
\<close>

theorem echo_rewrites_mentions_history_keeps_text:
  assumes "outbox (snd (execute cfg rnd m s)) \<noteq> outbox s"
  shows "(\<exists>gid. py_int (extract_group_id m) = Some gid \<and>
            outbox (snd (execute cfg rnd m s)) =
              outbox s @ [(gid, re_sub_mention (extract_text m))]) \<and>
         last_repeated_message (snd (execute cfg rnd m s)) = Some (extract_text m) \<and>
         window (snd (execute cfg rnd m s)) (extract_group_id m) =
           deque_append (window s (extract_group_id m)) (extract_text m) \<and>
         last (window (snd (execute cfg rnd m s)) (extract_group_id m)) = extract_text m \<and>
         (extract_text m = pre @ ''@<'' @ name @ '':'' @ ds @ ''>'' @ post \<and>
          no_mention_start pre \<and> name \<noteq> [] \<and> CHR '':'' \<notin> set name \<and>
          ds \<noteq> [] \<and> (\<forall>c\<in>set ds. py_isdigit c) \<longrightarrow>
          re_sub_mention (extract_text m) = pre @ ''@'' @ name @ re_sub_mention post)"
proof -
  from assms have e: "observed m" "echo_attempt cfg rnd (extract_group_id m) (extract_text m) s"
    "py_int (extract_group_id m) \<noteq> None"
    by (simp_all add: execute_outbox split: if_splits)
  then obtain gid where gid: "py_int (extract_group_id m) = Some gid" by blast
  have "outbox (snd (execute cfg rnd m s)) = outbox s @ [(gid, re_sub_mention (extract_text m))]"
    using e gid by (simp add: execute_outbox)
  moreover have "last_repeated_message (snd (execute cfg rnd m s)) = Some (extract_text m)"
    using e gid by (simp add: execute_guard)
  moreover have w: "window (snd (execute cfg rnd m s)) (extract_group_id m) =
           deque_append (window s (extract_group_id m)) (extract_text m)"
    using e gid by (simp add: execute_window)
  moreover have "last (window (snd (execute cfg rnd m s)) (extract_group_id m)) = extract_text m"
    unfolding w by (simp add: deque_append_last)
  moreover have "extract_text m = pre @ ''@<'' @ name @ '':'' @ ds @ ''>'' @ post \<and>
          no_mention_start pre \<and> name \<noteq> [] \<and> CHR '':'' \<notin> set name \<and>
          ds \<noteq> [] \<and> (\<forall>c\<in>set ds. py_isdigit c) \<longrightarrow>
          re_sub_mention (extract_text m) = pre @ ''@'' @ name @ re_sub_mention post"
    using re_sub_mention_shape [of pre name ds post] by auto
  ultimately show ?thesis using gid by blast
qed

text \<open>
  The theorem at the third message \<open>hi @<bob:123> and @<al:45>!\<close> in group 1: the
  gateway gets \<open>hi @bob and @al!\<close>, the guard and the window keep the markup.
\<close>

theorem echo_rewrites_mentions_history_keeps_text_witness:
  "outbox (snd (execute \<lparr>debug_mode = None, repeat_probability = Some 1, skip_probability = Some 0\<rparr>
      (\<lambda>_. 1 / 2) (group_message ''1'' ''hi @<bob:123> and @<al:45>!'' False)
      (run \<lparr>debug_mode = None, repeat_probability = Some 1, skip_probability = Some 0\<rparr>
        (\<lambda>_. 1 / 2)
        [group_message ''1'' ''hi @<bob:123> and @<al:45>!'' False,
         group_message ''1'' ''hi @<bob:123> and @<al:45>!'' False] init_state))) =
     [(1, ''hi @bob and @al!'')] \<and>
   last_repeated_message
     (snd (execute \<lparr>debug_mode = None, repeat_probability = Some 1, skip_probability = Some 0\<rparr>
      (\<lambda>_. 1 / 2) (group_message ''1'' ''hi @<bob:123> and @<al:45>!'' False)
      (run \<lparr>debug_mode = None, repeat_probability = Some 1, skip_probability = Some 0\<rparr>
        (\<lambda>_. 1 / 2)
        [group_message ''1'' ''hi @<bob:123> and @<al:45>!'' False,
         group_message ''1'' ''hi @<bob:123> and @<al:45>!'' False] init_state))) =
     Some ''hi @<bob:123> and @<al:45>!'' \<and>
   last (window
     (snd (execute \<lparr>debug_mode = None, repeat_probability = Some 1, skip_probability = Some 0\<rparr>
      (\<lambda>_. 1 / 2) (group_message ''1'' ''hi @<bob:123> and @<al:45>!'' False)
      (run \<lparr>debug_mode = None, repeat_probability = Some 1, skip_probability = Some 0\<rparr>
        (\<lambda>_. 1 / 2)
        [group_message ''1'' ''hi @<bob:123> and @<al:45>!'' False,
         group_message ''1'' ''hi @<bob:123> and @<al:45>!'' False] init_state))) ''1'') =
     ''hi @<bob:123> and @<al:45>!''"
proof -
  let ?cfg = "\<lparr>debug_mode = None, repeat_probability = Some 1, skip_probability = Some 0\<rparr>"
  let ?M = "group_message ''1'' ''hi @<bob:123> and @<al:45>!'' False"
  let ?S = "run ?cfg (\<lambda>_. 1 / 2) [?M, ?M] init_state"
  have o: "outbox ?S = []" by code_simp
  have g: "extract_group_id ?M = ''1''" by code_simp
  have t: "extract_text ?M = ''hi @<bob:123> and @<al:45>!''" by code_simp
  have pi: "py_int ''1'' = Some 1" by code_simp
  have rs: "re_sub_mention ''hi @<bob:123> and @<al:45>!'' = ''hi @bob and @al!''" by code_simp
  have ne: "outbox (snd (execute ?cfg (\<lambda>_. 1 / 2) ?M ?S)) \<noteq> outbox ?S"
    unfolding o by code_simp
  from echo_rewrites_mentions_history_keeps_text
    [OF ne, where pre = "''hi ''" and name = "''bob''" and ds = "''123''"
       and post = "'' and @<al:45>!''"]
    o g t pi rs
  show ?thesis by (simp del: re_sub_mention.simps add: deque_append_last)
qed

section \<open>A group id that is not a number\<close>

text \<open>
  Claim C3 at a failing input. Group \<open>lobby\<close> receives \<open>A\<close> three times, with
  \<^verbatim>\<open>repeat_probability = 1.0\<close>, \<^verbatim>\<open>skip_probability = 0.0\<close> and every draw one half.
  The first two calls return; the third evaluates \<^verbatim>\<open>int("lobby")\<close> outside any
  \<^verbatim>\<open>try\<close>, and \<^verbatim>\<open>ValueError\<close> leaves the handler.
\<close>

theorem int_group_id_raises_out_of_execute:
  "fst (execute \<lparr>debug_mode = None, repeat_probability = Some 1, skip_probability = Some 0\<rparr>
      (\<lambda>_. 1 / 2) (group_message ''lobby'' ''A'' False) init_state) = Inr handled \<and>
   fst (execute \<lparr>debug_mode = None, repeat_probability = Some 1, skip_probability = Some 0\<rparr>
      (\<lambda>_. 1 / 2) (group_message ''lobby'' ''A'' False)
      (run \<lparr>debug_mode = None, repeat_probability = Some 1, skip_probability = Some 0\<rparr>
        (\<lambda>_. 1 / 2) [group_message ''lobby'' ''A'' False] init_state)) = Inr handled \<and>
   fst (execute \<lparr>debug_mode = None, repeat_probability = Some 1, skip_probability = Some 0\<rparr>
      (\<lambda>_. 1 / 2) (group_message ''lobby'' ''A'' False)
      (run \<lparr>debug_mode = None, repeat_probability = Some 1, skip_probability = Some 0\<rparr>
        (\<lambda>_. 1 / 2)
        [group_message ''lobby'' ''A'' False, group_message ''lobby'' ''A'' False] init_state)) =
     Inl ValueError"
  by code_simp

text \<open>
  What a call does to the histories when it returns: an observed message appends its
  text once to the window of its own group and leaves every other group's history as it
  was; a filtered message or a self-message leaves every history as it was.
\<close>

lemma returning_call_history_frame:
  assumes "fst (execute cfg rnd m s) = Inr handled"
  shows "chat_history (snd (execute cfg rnd m s)) =
     (if observed m
      then (chat_history s)
             (extract_group_id m \<mapsto> deque_append (window s (extract_group_id m)) (extract_text m))
      else chat_history s)"
  using assms by (auto simp: execute_history execute_result split: if_splits)

text \<open>
  Claim C7 at the same input. The third message passes every filter and is not a
  self-message, yet the call appends nothing: the window of \<open>lobby\<close> is \<open>[A, A]\<close>
  before the call and after it.
\<close>

theorem raising_call_appends_nothing:
  "observed (group_message ''lobby'' ''A'' False) \<and>
   window (run \<lparr>debug_mode = None, repeat_probability = Some 1, skip_probability = Some 0\<rparr>
        (\<lambda>_. 1 / 2)
        [group_message ''lobby'' ''A'' False, group_message ''lobby'' ''A'' False] init_state)
      ''lobby'' = [''A'', ''A''] \<and>
   window (snd (execute \<lparr>debug_mode = None, repeat_probability = Some 1, skip_probability = Some 0\<rparr>
      (\<lambda>_. 1 / 2) (group_message ''lobby'' ''A'' False)
      (run \<lparr>debug_mode = None, repeat_probability = Some 1, skip_probability = Some 0\<rparr>
        (\<lambda>_. 1 / 2)
        [group_message ''lobby'' ''A'' False, group_message ''lobby'' ''A'' False] init_state)))
      ''lobby'' = [''A'', ''A'']"
  by code_simp

section \<open>Defaults\<close>

text \<open>
  Claim C8 at a failing input. The loaded configuration holds none of the keys of the
  \<^verbatim>\<open>repeat\<close> section. The handler then works with the defaults it passes to
  \<^verbatim>\<open>get_config\<close>, 1.0 and 0.0, not with the declared 0.7 and 0.1: with every draw
  0.9, three messages \<open>A\<close> are echoed, which the declared defaults would not do.
\<close>

theorem handler_defaults_differ_from_schema:
  "get_config (repeat_probability \<lparr>debug_mode = None, repeat_probability = None, skip_probability = None\<rparr>) (1::real) = 1 \<and>
   get_config (skip_probability \<lparr>debug_mode = None, repeat_probability = None, skip_probability = None\<rparr>) (0::real) = 0 \<and>
   repeat_probability config_schema = Some 0.7 \<and>
   skip_probability config_schema = Some 0.1 \<and>
   outbox (run \<lparr>debug_mode = None, repeat_probability = None, skip_probability = None\<rparr>
     (\<lambda>_. 0.9)
     [group_message ''1'' ''A'' False, group_message ''1'' ''A'' False,
      group_message ''1'' ''A'' False] init_state) = [(1, ''A'')] \<and>
   outbox (run config_schema (\<lambda>_. 0.9)
     [group_message ''1'' ''A'' False, group_message ''1'' ''A'' False,
      group_message ''1'' ''A'' False] init_state) = []"
  by code_simp

end
